theory Spec2Isabelle
  imports Main
begin

section \<open>Python strings\<close>

text \<open>
  A Python \<open>str\<close> is a sequence of Unicode code points. A code point is modelled as a
  natural number, a string as the list of its code points. \<open>str\<close> turns an ASCII literal
  into such a list.
\<close>

type_synonym py_str = "nat list"

definition str :: "string \<Rightarrow> py_str" where
  "str s = map of_char s"

text \<open>The line separator of \<open>response_text.split('\n')\<close>.\<close>

definition NL :: nat where
  "NL = 10"

text \<open>
  \<open>str.isspace\<close> on one code point, as \<open>str.strip()\<close> without argument uses it: the code
  points U+0009..U+000D, U+001C..U+0020, U+0085, U+00A0, U+1680, U+2000..U+200A, U+2028,
  U+2029, U+202F, U+205F and U+3000.
\<close>

definition is_space :: "nat \<Rightarrow> bool" where
  "is_space c =
     ((9 \<le> c \<and> c \<le> 13) \<or> (28 \<le> c \<and> c \<le> 32) \<or> c = 133 \<or> c = 160 \<or> c = 5760 \<or>
      (8192 \<le> c \<and> c \<le> 8202) \<or> c = 8232 \<or> c = 8233 \<or> c = 8239 \<or> c = 8287 \<or>
      c = 12288)"

text \<open>\<open>s.strip()\<close>: whitespace is removed from both ends.\<close>

definition strip :: "py_str \<Rightarrow> py_str" where
  "strip s = rev (dropWhile is_space (rev (dropWhile is_space s)))"

text \<open>\<open>s.startswith(p)\<close>.\<close>

definition startswith :: "py_str \<Rightarrow> py_str \<Rightarrow> bool" where
  "startswith s p = (take (length p) s = p)"

text \<open>\<open>sub in s\<close>: \<open>sub\<close> occurs in \<open>s\<close> as a contiguous substring.\<close>

fun contains :: "py_str \<Rightarrow> py_str \<Rightarrow> bool" where
  "contains [] sub = (sub = [])"
| "contains (c # cs) sub = (startswith (c # cs) sub \<or> contains cs sub)"

text \<open>
  \<open>s.split(sep)\<close> for a separator of one code point: \<open>cur\<close> is the piece read so far.
  The result always has one piece more than \<open>s\<close> has separators.
\<close>

fun split_from :: "nat \<Rightarrow> py_str \<Rightarrow> py_str \<Rightarrow> py_str list" where
  "split_from sep cur [] = [cur]"
| "split_from sep cur (c # cs) =
     (if c = sep then cur # split_from sep [] cs else split_from sep (cur @ [c]) cs)"

definition split :: "py_str \<Rightarrow> nat \<Rightarrow> py_str list" where
  "split s sep = split_from sep [] s"

section \<open>The parser of \<open>src/backend/main.py\<close>\<close>

text \<open>The pydantic model \<open>AnalysisResponse\<close>.\<close>

record AnalysisResponse =
  summary :: py_str
  highlights :: "py_str list"
  what_to_do :: "py_str list"
  important_dates :: "py_str list"
  email_prompt :: "py_str option"

text \<open>
  The values \<open>current_section\<close> takes: \<open>None\<close> or one of the five string constants
  \<open>"summary"\<close>, \<open>"highlights"\<close>, \<open>"what_to_do"\<close>, \<open>"important_dates"\<close>, \<open>"email_prompt"\<close>.
\<close>

datatype section_name = Sec_summary | Sec_highlights | Sec_what_to_do | Sec_important_dates
  | Sec_email_prompt

text \<open>The local variables of \<open>parse_ai_response\<close> that the loop reads and writes.\<close>

record locals =
  l_summary :: py_str
  l_highlights :: "py_str list"
  l_what_to_do :: "py_str list"
  l_important_dates :: "py_str list"
  l_email_prompt :: "py_str option"
  current_section :: "section_name option"

definition initial :: locals where
  "initial = \<lparr>l_summary = [], l_highlights = [], l_what_to_do = [], l_important_dates = [],
     l_email_prompt = None, current_section = None\<rparr>"

text \<open>The five header markers, in the order the loop body tests them.\<close>

definition SUMMARY :: py_str where "SUMMARY = str ''**Summary:**''"
definition HIGHLIGHTS :: py_str where "HIGHLIGHTS = str ''**Highlights:**''"
definition WHAT_TO_DO :: py_str where "WHAT_TO_DO = str ''**What To Do:**''"
definition IMPORTANT_DATES :: py_str where "IMPORTANT_DATES = str ''**Important Dates:**''"
definition EMAIL_PROMPT :: py_str where "EMAIL_PROMPT = str ''**Email Prompt:**''"

text \<open>One iteration of \<open>for line in lines\<close>: the if/elif chain in the order of the source.\<close>

definition loop_body :: "locals \<Rightarrow> py_str \<Rightarrow> locals" where
  "loop_body st raw =
     (let line = strip raw in
      if line = [] then st
      else if contains line SUMMARY then st\<lparr>current_section := Some Sec_summary\<rparr>
      else if contains line HIGHLIGHTS then st\<lparr>current_section := Some Sec_highlights\<rparr>
      else if contains line WHAT_TO_DO then st\<lparr>current_section := Some Sec_what_to_do\<rparr>
      else if contains line IMPORTANT_DATES then
        st\<lparr>current_section := Some Sec_important_dates\<rparr>
      else if contains line EMAIL_PROMPT then st\<lparr>current_section := Some Sec_email_prompt\<rparr>
      else if startswith line (str ''- '') \<and>
          current_section st \<in>
            set [Some Sec_highlights, Some Sec_what_to_do, Some Sec_important_dates] then
        (let content = strip (drop 2 line) in
         if current_section st = Some Sec_highlights then
           st\<lparr>l_highlights := l_highlights st @ [content]\<rparr>
         else if current_section st = Some Sec_what_to_do then
           st\<lparr>l_what_to_do := l_what_to_do st @ [content]\<rparr>
         else if current_section st = Some Sec_important_dates then
           st\<lparr>l_important_dates := l_important_dates st @ [content]\<rparr>
         else st)
      else if current_section st = Some Sec_summary \<and> line \<noteq> [] \<and>
          \<not> startswith line (str ''**'') then
        st\<lparr>l_summary := line\<rparr>
      else if current_section st = Some Sec_email_prompt \<and> line \<noteq> [] \<and>
          \<not> startswith line (str ''**'') then
        st\<lparr>l_email_prompt := Some line\<rparr>
      else st)"

text \<open>The whole loop, from given values of the local variables.\<close>

definition loop :: "locals \<Rightarrow> py_str list \<Rightarrow> locals" where
  "loop st lines = foldl loop_body st lines"

text \<open>The \<open>return AnalysisResponse(...)\<close> statement.\<close>

definition response :: "locals \<Rightarrow> AnalysisResponse" where
  "response st = \<lparr>summary = l_summary st, highlights = l_highlights st,
     what_to_do = l_what_to_do st, important_dates = l_important_dates st,
     email_prompt = l_email_prompt st\<rparr>"

definition parse_ai_response :: "py_str \<Rightarrow> AnalysisResponse" where
  "parse_ai_response response_text = response (loop initial (split response_text NL))"

section \<open>The function on Python values: dynamic types, exceptions and list objects\<close>

text \<open>
  The values the function handles at run time: \<open>None\<close>, a string, or a reference to a list
  object. List objects live in a store and are changed in place by \<open>append\<close>; the address
  of a new object is the size of the store.
\<close>

datatype py_value = PyNone | PyStr py_str | PyRef nat

text \<open>
  The exceptions: calling a method on a value that does not have it, and the validation
  error of the pydantic model.
\<close>

datatype py_error = AttributeError | ValidationError

text \<open>The store: the list objects, each at the address that is its position.\<close>

type_synonym heap = "py_value list list"

text \<open>Sequencing: an exception ends the computation.\<close>

definition and_then :: "py_error + 'a \<Rightarrow> ('a \<Rightarrow> py_error + 'b) \<Rightarrow> py_error + 'b" where
  "and_then m f = (case m of Inl e \<Rightarrow> Inl e | Inr x \<Rightarrow> f x)"

text \<open>
  \<open>response_text.split(sep)\<close>: only a string has the method. Its result is a list of
  strings that the loop reads and never changes.
\<close>

fun py_split :: "py_value \<Rightarrow> nat \<Rightarrow> py_error + py_str list" where
  "py_split (PyStr s) sep = Inr (split s sep)"
| "py_split PyNone sep = Inl AttributeError"
| "py_split (PyRef a) sep = Inl AttributeError"

text \<open>The expression \<open>[]\<close>: a new, empty list object.\<close>

definition py_new_list :: "heap \<Rightarrow> py_value \<times> heap" where
  "py_new_list h = (PyRef (length h), h @ [[]])"

text \<open>
  \<open>xs.append(x)\<close>: only a list object has the method. An address beyond the store stands
  for no object, so its use is an error as well.
\<close>

fun py_append :: "heap \<Rightarrow> py_value \<Rightarrow> py_value \<Rightarrow> py_error + heap" where
  "py_append h (PyRef a) x =
     (if a < length h then Inr (h[a := h ! a @ [x]]) else Inl AttributeError)"
| "py_append h PyNone x = Inl AttributeError"
| "py_append h (PyStr s) x = Inl AttributeError"

text \<open>The local variables, each holding a value of any kind.\<close>

record py_locals =
  v_summary :: py_value
  v_highlights :: py_value
  v_what_to_do :: py_value
  v_important_dates :: py_value
  v_email_prompt :: py_value
  v_current_section :: py_value

text \<open>
  One iteration of the loop on these values: the section is the string the source assigns,
  and the bullet branch appends to the list object its variable refers to.
\<close>

definition loop_body_py :: "py_locals \<times> heap \<Rightarrow> py_str \<Rightarrow> py_error + py_locals \<times> heap" where
  "loop_body_py s raw =
     (let v = fst s; h = snd s; line = strip raw in
      if line = [] then Inr (v, h)
      else if contains line SUMMARY then
        Inr (v\<lparr>v_current_section := PyStr (str ''summary'')\<rparr>, h)
      else if contains line HIGHLIGHTS then
        Inr (v\<lparr>v_current_section := PyStr (str ''highlights'')\<rparr>, h)
      else if contains line WHAT_TO_DO then
        Inr (v\<lparr>v_current_section := PyStr (str ''what_to_do'')\<rparr>, h)
      else if contains line IMPORTANT_DATES then
        Inr (v\<lparr>v_current_section := PyStr (str ''important_dates'')\<rparr>, h)
      else if contains line EMAIL_PROMPT then
        Inr (v\<lparr>v_current_section := PyStr (str ''email_prompt'')\<rparr>, h)
      else if startswith line (str ''- '') \<and>
          v_current_section v \<in> set [PyStr (str ''highlights''), PyStr (str ''what_to_do''),
            PyStr (str ''important_dates'')] then
        (let content = strip (drop 2 line) in
         if v_current_section v = PyStr (str ''highlights'') then
           and_then (py_append h (v_highlights v) (PyStr content)) (\<lambda>h'. Inr (v, h'))
         else if v_current_section v = PyStr (str ''what_to_do'') then
           and_then (py_append h (v_what_to_do v) (PyStr content)) (\<lambda>h'. Inr (v, h'))
         else if v_current_section v = PyStr (str ''important_dates'') then
           and_then (py_append h (v_important_dates v) (PyStr content)) (\<lambda>h'. Inr (v, h'))
         else Inr (v, h))
      else if v_current_section v = PyStr (str ''summary'') \<and> line \<noteq> [] \<and>
          \<not> startswith line (str ''**'') then
        Inr (v\<lparr>v_summary := PyStr line\<rparr>, h)
      else if v_current_section v = PyStr (str ''email_prompt'') \<and> line \<noteq> [] \<and>
          \<not> startswith line (str ''**'') then
        Inr (v\<lparr>v_email_prompt := PyStr line\<rparr>, h)
      else Inr (v, h))"

text \<open>The loop stops at the first exception.\<close>

fun loop_py :: "py_locals \<times> heap \<Rightarrow> py_str list \<Rightarrow> py_error + py_locals \<times> heap" where
  "loop_py s [] = Inr s"
| "loop_py s (l # ls) =
     (case loop_body_py s l of Inl e \<Rightarrow> Inl e | Inr s' \<Rightarrow> loop_py s' ls)"

text \<open>
  The validation \<open>AnalysisResponse(...)\<close> performs, by the annotations of the class: \<open>str\<close>
  for the summary, \<open>List[str]\<close> for the three lists, \<open>Optional[str]\<close> for the email
  prompt. The record returned holds the validated values.
\<close>

fun validate_str :: "py_value \<Rightarrow> py_error + py_str" where
  "validate_str (PyStr s) = Inr s"
| "validate_str PyNone = Inl ValidationError"
| "validate_str (PyRef a) = Inl ValidationError"

fun validate_optional_str :: "py_value \<Rightarrow> py_error + py_str option" where
  "validate_optional_str PyNone = Inr None"
| "validate_optional_str (PyStr s) = Inr (Some s)"
| "validate_optional_str (PyRef a) = Inl ValidationError"

fun validate_items :: "py_value list \<Rightarrow> py_error + py_str list" where
  "validate_items [] = Inr []"
| "validate_items (x # xs) =
     (case validate_str x of Inl e \<Rightarrow> Inl e
      | Inr s \<Rightarrow> (case validate_items xs of Inl e \<Rightarrow> Inl e | Inr ss \<Rightarrow> Inr (s # ss)))"

fun validate_list_str :: "heap \<Rightarrow> py_value \<Rightarrow> py_error + py_str list" where
  "validate_list_str h (PyRef a) =
     (if a < length h then validate_items (h ! a) else Inl ValidationError)"
| "validate_list_str h PyNone = Inl ValidationError"
| "validate_list_str h (PyStr s) = Inl ValidationError"

definition new_AnalysisResponse :: "heap \<Rightarrow> py_locals \<Rightarrow> py_error + AnalysisResponse" where
  "new_AnalysisResponse h v =
     and_then (validate_str (v_summary v)) (\<lambda>s.
     and_then (validate_list_str h (v_highlights v)) (\<lambda>hs.
     and_then (validate_list_str h (v_what_to_do v)) (\<lambda>ws.
     and_then (validate_list_str h (v_important_dates v)) (\<lambda>ds.
     and_then (validate_optional_str (v_email_prompt v)) (\<lambda>e.
     Inr \<lparr>summary = s, highlights = hs, what_to_do = ws, important_dates = ds,
       email_prompt = e\<rparr>)))))"

text \<open>
  The function: any value may be passed, the three lists are new objects of the store the
  call starts in, and the result comes with the store the call leaves.
\<close>

definition parse_ai_response_py ::
    "heap \<Rightarrow> py_value \<Rightarrow> py_error + AnalysisResponse \<times> heap" where
  "parse_ai_response_py h response_text =
     and_then (py_split response_text NL) (\<lambda>lines.
       let summary = PyStr [];
           (highlights, h1) = py_new_list h;
           (what_to_do, h2) = py_new_list h1;
           (important_dates, h3) = py_new_list h2;
           email_prompt = PyNone;
           current_section = PyNone
       in and_then (loop_py (\<lparr>v_summary = summary, v_highlights = highlights,
             v_what_to_do = what_to_do, v_important_dates = important_dates,
             v_email_prompt = email_prompt, v_current_section = current_section\<rparr>, h3) lines)
          (\<lambda>s. and_then (new_AnalysisResponse (snd s) (fst s)) (\<lambda>r. Inr (r, snd s))))"

text \<open>
  The values and list objects that stand for given local variables of the typed model, the
  three lists at the addresses \<open>a\<close>, \<open>a + 1\<close>, \<open>a + 2\<close>.
\<close>

fun section_str :: "section_name \<Rightarrow> py_str" where
  "section_str Sec_summary = str ''summary''"
| "section_str Sec_highlights = str ''highlights''"
| "section_str Sec_what_to_do = str ''what_to_do''"
| "section_str Sec_important_dates = str ''important_dates''"
| "section_str Sec_email_prompt = str ''email_prompt''"

definition py_of_locals :: "nat \<Rightarrow> locals \<Rightarrow> py_locals" where
  "py_of_locals a st =
     \<lparr>v_summary = PyStr (l_summary st), v_highlights = PyRef a, v_what_to_do = PyRef (a + 1),
      v_important_dates = PyRef (a + 2),
      v_email_prompt = (case l_email_prompt st of None \<Rightarrow> PyNone | Some e \<Rightarrow> PyStr e),
      v_current_section =
        (case current_section st of None \<Rightarrow> PyNone | Some s \<Rightarrow> PyStr (section_str s))\<rparr>"

definition lists_of_locals :: "locals \<Rightarrow> heap" where
  "lists_of_locals st = [map PyStr (l_highlights st), map PyStr (l_what_to_do st),
     map PyStr (l_important_dates st)]"

section \<open>Notions the properties are stated with\<close>

text \<open>A string is trimmed when it is not empty and neither starts nor ends with whitespace.\<close>

definition trimmed :: "py_str \<Rightarrow> bool" where
  "trimmed s = (s \<noteq> [] \<and> \<not> is_space (hd s) \<and> \<not> is_space (last s))"


text \<open>The header markers, and a line (or text) that contains one of them.\<close>

definition markers :: "py_str list" where
  "markers = [SUMMARY, HIGHLIGHTS, WHAT_TO_DO, IMPORTANT_DATES, EMAIL_PROMPT]"

definition has_marker :: "py_str \<Rightarrow> bool" where
  "has_marker l = list_ex (contains l) markers"

text \<open>The markers paired with the section each selects, in the order of the elif chain.\<close>

definition check_order :: "(py_str \<times> section_name) list" where
  "check_order = [(SUMMARY, Sec_summary), (HIGHLIGHTS, Sec_highlights),
     (WHAT_TO_DO, Sec_what_to_do), (IMPORTANT_DATES, Sec_important_dates),
     (EMAIL_PROMPT, Sec_email_prompt)]"

text \<open>
  A bullet line starts, once stripped, with \<open>"- "\<close>; its item is what follows the two
  characters of the marker, without the whitespace in front.
\<close>

definition bullet :: "py_str \<Rightarrow> bool" where
  "bullet l = startswith (strip l) (str ''- '')"

definition item :: "py_str \<Rightarrow> py_str" where
  "item l = dropWhile is_space (drop 2 (strip l))"

text \<open>
  A content line of the Summary or Email Prompt section: not blank, without header marker,
  and not starting with \<open>"**"\<close>.
\<close>

definition content_line :: "py_str \<Rightarrow> bool" where
  "content_line l = (strip l \<noteq> [] \<and> \<not> has_marker l \<and> \<not> startswith (strip l) (str ''**''))"

text \<open>The marker that selects a section.\<close>

fun marker_of :: "section_name \<Rightarrow> py_str" where
  "marker_of Sec_summary = SUMMARY"
| "marker_of Sec_highlights = HIGHLIGHTS"
| "marker_of Sec_what_to_do = WHAT_TO_DO"
| "marker_of Sec_important_dates = IMPORTANT_DATES"
| "marker_of Sec_email_prompt = EMAIL_PROMPT"

text \<open>
  The strings the parser holds for a section: the items of a list, the summary unless it is
  still the empty default, the email prompt unless it is still \<open>None\<close>.
\<close>

fun stored :: "section_name \<Rightarrow> locals \<Rightarrow> py_str list" where
  "stored Sec_summary st = (if l_summary st = [] then [] else [l_summary st])"
| "stored Sec_highlights st = l_highlights st"
| "stored Sec_what_to_do st = l_what_to_do st"
| "stored Sec_important_dates st = l_important_dates st"
| "stored Sec_email_prompt st = (case l_email_prompt st of None \<Rightarrow> [] | Some e \<Rightarrow> [e])"

text \<open>The result in which every field has its initial value.\<close>

definition defaults :: AnalysisResponse where
  "defaults = \<lparr>summary = [], highlights = [], what_to_do = [], important_dates = [],
     email_prompt = None\<rparr>"

section \<open>Substrings, stripping and splitting\<close>

lemma startswith_iff: "startswith s p \<longleftrightarrow> (\<exists>b. s = p @ b)"
  unfolding startswith_def
proof
  assume "take (length p) s = p"
  then have "s = p @ drop (length p) s"
    by (metis append_take_drop_id)
  then show "\<exists>b. s = p @ b" ..
next
  assume "\<exists>b. s = p @ b"
  then show "take (length p) s = p" by auto
qed

lemma contains_iff: "contains s sub \<longleftrightarrow> (\<exists>a b. s = a @ sub @ b)"
proof (induction s)
  case Nil
  show ?case by auto
next
  case (Cons c cs)
  show ?case
  proof
    assume "contains (c # cs) sub"
    then consider "startswith (c # cs) sub" | "contains cs sub" by auto
    then show "\<exists>a b. c # cs = a @ sub @ b"
    proof cases
      case 1
      then obtain b where "c # cs = sub @ b" by (auto simp: startswith_iff)
      then have "c # cs = [] @ sub @ b" by simp
      then show ?thesis by blast
    next
      case 2
      then obtain a b where "cs = a @ sub @ b" using Cons.IH by auto
      then have "c # cs = (c # a) @ sub @ b" by simp
      then show ?thesis by blast
    qed
  next
    assume "\<exists>a b. c # cs = a @ sub @ b"
    then obtain a b where ab: "c # cs = a @ sub @ b" by auto
    show "contains (c # cs) sub"
    proof (cases a)
      case Nil
      with ab have "startswith (c # cs) sub" by (auto simp: startswith_iff)
      then show ?thesis by simp
    next
      case (Cons x a')
      with ab have "cs = a' @ sub @ b" by simp
      then have "contains cs sub" using Cons.IH by blast
      then show ?thesis by simp
    qed
  qed
qed

lemma contains_rev: "contains (rev s) (rev sub) = contains s sub"
proof -
  have "(\<exists>a b. rev s = a @ rev sub @ b) \<longleftrightarrow> (\<exists>a b. s = a @ sub @ b)"
  proof
    assume "\<exists>a b. rev s = a @ rev sub @ b"
    then obtain a b where "rev s = a @ rev sub @ b" by auto
    then have "rev (rev s) = rev (a @ rev sub @ b)" by simp
    then have "s = rev b @ sub @ rev a" by simp
    then show "\<exists>a b. s = a @ sub @ b" by blast
  next
    assume "\<exists>a b. s = a @ sub @ b"
    then obtain a b where "s = a @ sub @ b" by auto
    then have "rev s = rev b @ rev sub @ rev a" by simp
    then show "\<exists>a b. rev s = a @ rev sub @ b" by blast
  qed
  then show ?thesis by (simp add: contains_iff)
qed

lemma contains_dropWhile:
  assumes "sub \<noteq> []" and "\<not> P (hd sub)"
  shows "contains (dropWhile P s) sub = contains s sub"
proof (induction s)
  case Nil
  show ?case by simp
next
  case (Cons c cs)
  show ?case
  proof (cases "P c")
    case True
    have "\<not> startswith (c # cs) sub"
    proof
      assume "startswith (c # cs) sub"
      then obtain b where "c # cs = sub @ b" by (auto simp: startswith_iff)
      with assms(1) have "hd sub = c" by (cases sub) auto
      with assms(2) True show False by simp
    qed
    with True Cons.IH show ?thesis by simp
  next
    case False
    then show ?thesis by simp
  qed
qed

lemma contains_strip:
  assumes "sub \<noteq> []" and "\<not> is_space (hd sub)" and "\<not> is_space (last sub)"
  shows "contains (strip s) sub = contains s sub"
proof -
  have r: "rev sub \<noteq> []" "\<not> is_space (hd (rev sub))"
    using assms by (simp_all add: hd_rev)
  have "contains (strip s) sub = contains (dropWhile is_space (rev (dropWhile is_space s))) (rev sub)"
    unfolding strip_def using contains_rev [of "dropWhile is_space (rev (dropWhile is_space s))" "rev sub"]
    by simp
  also have "\<dots> = contains (rev (dropWhile is_space s)) (rev sub)"
    using r by (rule contains_dropWhile)
  also have "\<dots> = contains (dropWhile is_space s) sub"
    by (rule contains_rev)
  also have "\<dots> = contains s sub"
    using assms(1,2) by (rule contains_dropWhile)
  finally show ?thesis .
qed

lemma last_dropWhile: "dropWhile P t \<noteq> [] \<Longrightarrow> last (dropWhile P t) = last t"
  by (metis last_appendR takeWhile_dropWhile_id)

lemma strip_trimmed: "strip s \<noteq> [] \<Longrightarrow> trimmed (strip s)"
proof -
  assume ne: "strip s \<noteq> []"
  define t where "t = dropWhile is_space s"
  define u where "u = dropWhile is_space (rev t)"
  have s: "strip s = rev u" by (simp add: strip_def t_def u_def)
  with ne have u: "u \<noteq> []" by simp
  then have hu: "\<not> is_space (hd u)" unfolding u_def by (rule hd_dropWhile)
  from u have t: "t \<noteq> []" by (auto simp: u_def)
  then have ht: "\<not> is_space (hd t)" unfolding t_def by (rule hd_dropWhile)
  have "last u = last (rev t)" using u unfolding u_def by (rule last_dropWhile)
  then have "last u = hd t" using t by (simp add: last_rev)
  with hu ht u show ?thesis by (simp add: s trimmed_def hd_rev last_rev)
qed

lemma strip_of_trimmed_end:
  assumes "t \<noteq> []" and "\<not> is_space (last t)"
  shows "strip t = dropWhile is_space t" and "strip t \<noteq> []"
proof -
  define d where "d = dropWhile is_space t"
  have "last t \<in> set t" using assms(1) by simp
  then have d: "d \<noteq> []" using assms(2) by (auto simp: d_def)
  then have "last d = last t" unfolding d_def by (rule last_dropWhile)
  then have "\<not> is_space (hd (rev d))" using d assms(2) by (simp add: hd_rev)
  then have "dropWhile is_space (rev d) = rev d" using d by (cases "rev d") auto
  then show "strip t = dropWhile is_space t" by (simp add: strip_def d_def)
  with d show "strip t \<noteq> []" by (simp add: d_def)
qed

lemma split_from_append:
  "split_from sep cur (a @ sep # b) = split_from sep cur a @ split_from sep [] b"
  by (induction a arbitrary: cur) simp_all

lemma split_append: "split (a @ NL # b) NL = split a NL @ split b NL"
  by (simp add: split_def split_from_append)

lemma split_from_piece:
  "l \<in> set (split_from sep cur s) \<Longrightarrow> \<exists>a b. cur @ s = a @ l @ b"
proof (induction s arbitrary: cur)
  case Nil
  then have "cur @ [] = [] @ l @ []" by simp
  then show ?case by blast
next
  case (Cons c cs)
  show ?case
  proof (cases "c = sep")
    case True
    with Cons.prems consider "l = cur" | "l \<in> set (split_from sep [] cs)" by auto
    then show ?thesis
    proof cases
      case 1
      then have "cur @ c # cs = [] @ l @ (c # cs)" by simp
      then show ?thesis by blast
    next
      case 2
      then obtain a b where "[] @ cs = a @ l @ b" using Cons.IH by blast
      then have "cur @ c # cs = (cur @ c # a) @ l @ b" by simp
      then show ?thesis by blast
    qed
  next
    case False
    with Cons.prems have "l \<in> set (split_from sep (cur @ [c]) cs)" by simp
    then obtain a b where "(cur @ [c]) @ cs = a @ l @ b" using Cons.IH by blast
    then have "cur @ c # cs = a @ l @ b" by simp
    then show ?thesis by blast
  qed
qed

lemma contains_mono:
  assumes "contains l sub" and "s = a @ l @ b"
  shows "contains s sub"
proof -
  from assms(1) obtain p q where "l = p @ sub @ q" by (auto simp: contains_iff)
  with assms(2) have "s = (a @ p) @ sub @ (q @ b)" by simp
  then show ?thesis unfolding contains_iff by blast
qed

lemma contains_line:
  assumes "l \<in> set (split text NL)" and "contains l sub"
  shows "contains text sub"
proof -
  from assms(1) obtain a b where "text = a @ l @ b"
    using split_from_piece [of l NL "[]" "text"] by (auto simp: split_def)
  with assms(2) show ?thesis by (rule contains_mono)
qed

lemma strip_piece: "\<exists>a b. s = a @ strip s @ b"
proof -
  define t where "t = dropWhile is_space s"
  have "rev (takeWhile is_space (rev t) @ dropWhile is_space (rev t)) = rev (rev t)"
    by (simp only: takeWhile_dropWhile_id)
  then have "rev (dropWhile is_space (rev t)) @ rev (takeWhile is_space (rev t)) = t"
    by (simp only: rev_append rev_rev_ident)
  then have "t = strip s @ rev (takeWhile is_space (rev t))"
    by (simp add: strip_def t_def)
  moreover have "s = takeWhile is_space s @ t" by (simp add: t_def)
  ultimately have "s = takeWhile is_space s @ strip s @ rev (takeWhile is_space (rev t))"
    by simp
  then show ?thesis by blast
qed

lemma contains_strip_raw: "contains (strip s) sub \<Longrightarrow> contains s sub"
  using strip_piece [of s] contains_mono by blast

section \<open>The loop body by kind of line\<close>

lemma has_marker_iff:
  "has_marker l \<longleftrightarrow> contains l SUMMARY \<or> contains l HIGHLIGHTS \<or> contains l WHAT_TO_DO \<or>
     contains l IMPORTANT_DATES \<or> contains l EMAIL_PROMPT"
  by (simp add: has_marker_def markers_def)

lemma marker_ends:
  "m \<in> set markers \<Longrightarrow> m \<noteq> [] \<and> \<not> is_space (hd m) \<and> \<not> is_space (last m)"
  by (auto simp: markers_def SUMMARY_def HIGHLIGHTS_def WHAT_TO_DO_def IMPORTANT_DATES_def
      EMAIL_PROMPT_def str_def is_space_def)

lemma contains_strip_marker: "m \<in> set markers \<Longrightarrow> contains (strip s) m = contains s m"
  using marker_ends [of m] by (simp add: contains_strip)

lemma strip_marker:
  "contains (strip s) SUMMARY = contains s SUMMARY"
  "contains (strip s) HIGHLIGHTS = contains s HIGHLIGHTS"
  "contains (strip s) WHAT_TO_DO = contains s WHAT_TO_DO"
  "contains (strip s) IMPORTANT_DATES = contains s IMPORTANT_DATES"
  "contains (strip s) EMAIL_PROMPT = contains s EMAIL_PROMPT"
  by (simp_all add: contains_strip_marker markers_def)

lemma marker_not_blank: "m \<in> set markers \<Longrightarrow> contains s m \<Longrightarrow> strip s \<noteq> []"
proof
  assume m: "m \<in> set markers" and "contains s m" and "strip s = []"
  then have "contains [] m" using contains_strip_marker [of m s] by simp
  with marker_ends [OF m] show False by simp
qed

lemma not_blank:
  "contains s SUMMARY \<Longrightarrow> strip s \<noteq> []"
  "contains s HIGHLIGHTS \<Longrightarrow> strip s \<noteq> []"
  "contains s WHAT_TO_DO \<Longrightarrow> strip s \<noteq> []"
  "contains s IMPORTANT_DATES \<Longrightarrow> strip s \<noteq> []"
  "contains s EMAIL_PROMPT \<Longrightarrow> strip s \<noteq> []"
  using marker_not_blank [of _ s] by (auto simp: markers_def)

text \<open>The loop body on a line with a header marker.\<close>

lemma loop_body_header:
  "contains raw SUMMARY \<Longrightarrow> loop_body st raw = st\<lparr>current_section := Some Sec_summary\<rparr>"
  "\<not> contains raw SUMMARY \<Longrightarrow> contains raw HIGHLIGHTS \<Longrightarrow>
     loop_body st raw = st\<lparr>current_section := Some Sec_highlights\<rparr>"
  "\<not> contains raw SUMMARY \<Longrightarrow> \<not> contains raw HIGHLIGHTS \<Longrightarrow> contains raw WHAT_TO_DO \<Longrightarrow>
     loop_body st raw = st\<lparr>current_section := Some Sec_what_to_do\<rparr>"
  "\<not> contains raw SUMMARY \<Longrightarrow> \<not> contains raw HIGHLIGHTS \<Longrightarrow> \<not> contains raw WHAT_TO_DO \<Longrightarrow>
     contains raw IMPORTANT_DATES \<Longrightarrow>
     loop_body st raw = st\<lparr>current_section := Some Sec_important_dates\<rparr>"
  "\<not> contains raw SUMMARY \<Longrightarrow> \<not> contains raw HIGHLIGHTS \<Longrightarrow> \<not> contains raw WHAT_TO_DO \<Longrightarrow>
     \<not> contains raw IMPORTANT_DATES \<Longrightarrow> contains raw EMAIL_PROMPT \<Longrightarrow>
     loop_body st raw = st\<lparr>current_section := Some Sec_email_prompt\<rparr>"
  by (simp_all add: loop_body_def Let_def strip_marker not_blank)

text \<open>The loop body on a line without header marker.\<close>

lemma loop_body_plain:
  assumes "\<not> has_marker raw"
  shows "loop_body st raw =
     (if strip raw = [] then st
      else if startswith (strip raw) (str ''- '') \<and> current_section st = Some Sec_highlights then
        st\<lparr>l_highlights := l_highlights st @ [strip (drop 2 (strip raw))]\<rparr>
      else if startswith (strip raw) (str ''- '') \<and> current_section st = Some Sec_what_to_do then
        st\<lparr>l_what_to_do := l_what_to_do st @ [strip (drop 2 (strip raw))]\<rparr>
      else if startswith (strip raw) (str ''- '') \<and>
          current_section st = Some Sec_important_dates then
        st\<lparr>l_important_dates := l_important_dates st @ [strip (drop 2 (strip raw))]\<rparr>
      else if current_section st = Some Sec_summary \<and> \<not> startswith (strip raw) (str ''**'') then
        st\<lparr>l_summary := strip raw\<rparr>
      else if current_section st = Some Sec_email_prompt \<and>
          \<not> startswith (strip raw) (str ''**'') then
        st\<lparr>l_email_prompt := Some (strip raw)\<rparr>
      else st)"
  using assms by (simp add: loop_body_def Let_def strip_marker has_marker_iff)

lemma loop_body_section:
  "\<not> has_marker raw \<Longrightarrow> current_section (loop_body st raw) = current_section st"
  by (simp add: loop_body_plain)

lemma loop_Nil: "loop st [] = st"
  by (simp add: loop_def)

lemma loop_Cons: "loop st (l # ls) = loop (loop_body st l) ls"
  by (simp add: loop_def)

lemma loop_append: "loop st (xs @ ys) = loop (loop st xs) ys"
  by (simp add: loop_def)

section \<open>Evaluation on concrete texts\<close>

text \<open>The definitions to unfold when the parser is run on a concrete text.\<close>

lemmas ev = parse_ai_response_def split_def NL_def str_def loop_def loop_body_def strip_def
  is_space_def startswith_def SUMMARY_def HIGHLIGHTS_def WHAT_TO_DO_def IMPORTANT_DATES_def
  EMAIL_PROMPT_def initial_def response_def Let_def has_marker_def markers_def bullet_def
  item_def content_line_def check_order_def trimmed_def

lemma bullet_not_bold:
  "startswith s (str ''- '') \<Longrightarrow> s \<noteq> [] \<and> \<not> startswith s (str ''**'')"
  by (cases s) (auto simp: startswith_def str_def)

section \<open>Bullet lines outside the list sections\<close>

text \<open>
  Claim C1, as amended. A line that starts with \<open>"- "\<close> once stripped, and contains no header
  marker, is ignored while no section has been entered: the loop body leaves every variable
  as it is. While the current section is Summary the stripped line, bullet marker included,
  becomes the summary; while it is Email Prompt it becomes the email prompt. Nothing else
  changes.
\<close>

theorem bullet_outside_list_sections:
  assumes "startswith (strip raw) (str ''- '')" and "\<not> has_marker raw"
  shows "(current_section st = None \<longrightarrow> loop_body st raw = st) \<and>
    (current_section st = Some Sec_summary \<longrightarrow> loop_body st raw = st\<lparr>l_summary := strip raw\<rparr>) \<and>
    (current_section st = Some Sec_email_prompt \<longrightarrow>
       loop_body st raw = st\<lparr>l_email_prompt := Some (strip raw)\<rparr>)"
  using assms bullet_not_bold [of "strip raw"] by (simp add: loop_body_plain)

theorem bullet_outside_list_sections_witness:
  "startswith (strip (str ''  - call us'')) (str ''- '') \<and> \<not> has_marker (str ''  - call us'') \<and>
   loop_body initial (str ''  - call us'') = initial \<and>
   loop_body (initial\<lparr>current_section := Some Sec_summary\<rparr>) (str ''  - call us'') =
     initial\<lparr>current_section := Some Sec_summary, l_summary := str ''- call us''\<rparr> \<and>
   loop_body (initial\<lparr>current_section := Some Sec_email_prompt\<rparr>) (str ''  - call us'') =
     initial\<lparr>current_section := Some Sec_email_prompt, l_email_prompt := Some (str ''- call us'')\<rparr>"
proof -
  have h1: "startswith (strip (str ''  - call us'')) (str ''- '')" by (simp add: ev)
  have h2: "\<not> has_marker (str ''  - call us'')" by (simp add: ev)
  have s: "strip (str ''  - call us'') = str ''- call us''" by (simp add: ev)
  note t = bullet_outside_list_sections [OF h1 h2]
  from t [of initial] t [of "initial\<lparr>current_section := Some Sec_summary\<rparr>"]
    t [of "initial\<lparr>current_section := Some Sec_email_prompt\<rparr>"] h1 h2
  show ?thesis by (simp add: s initial_def)
qed

text \<open>
  The claim as first stated fails: below the Summary header the bullet line \<open>"- foo"\<close> is
  not ignored, it is returned as the summary.
\<close>

theorem bullet_in_summary_counterexample:
  "startswith (strip (str ''- foo'')) (str ''- '') \<and>
   current_section (loop initial (split (str ''**Summary:**'') NL)) = Some Sec_summary \<and>
   summary (parse_ai_response (str ''**Summary:**'')) = [] \<and>
   summary (parse_ai_response (str ''**Summary:**'' @ [NL] @ str ''- foo'')) = str ''- foo''"
  by (simp add: ev)

section \<open>Header lines\<close>

text \<open>
  Claim C3, as amended. A line that contains a header marker anywhere switches the current
  section to the section of the first marker, in the order Summary, Highlights, What To Do,
  Important Dates, Email Prompt, that the line contains; that is the marker's own section
  when the line contains no marker tested before it. The line changes nothing else: neither
  the line nor what follows the marker on it is stored in any field.
\<close>

theorem header_line_switches_section:
  "(contains raw SUMMARY \<longrightarrow> loop_body st raw = st\<lparr>current_section := Some Sec_summary\<rparr>) \<and>
   (\<not> contains raw SUMMARY \<and> contains raw HIGHLIGHTS \<longrightarrow>
      loop_body st raw = st\<lparr>current_section := Some Sec_highlights\<rparr>) \<and>
   (\<not> contains raw SUMMARY \<and> \<not> contains raw HIGHLIGHTS \<and> contains raw WHAT_TO_DO \<longrightarrow>
      loop_body st raw = st\<lparr>current_section := Some Sec_what_to_do\<rparr>) \<and>
   (\<not> contains raw SUMMARY \<and> \<not> contains raw HIGHLIGHTS \<and> \<not> contains raw WHAT_TO_DO \<and>
    contains raw IMPORTANT_DATES \<longrightarrow>
      loop_body st raw = st\<lparr>current_section := Some Sec_important_dates\<rparr>) \<and>
   (\<not> contains raw SUMMARY \<and> \<not> contains raw HIGHLIGHTS \<and> \<not> contains raw WHAT_TO_DO \<and>
    \<not> contains raw IMPORTANT_DATES \<and> contains raw EMAIL_PROMPT \<longrightarrow>
      loop_body st raw = st\<lparr>current_section := Some Sec_email_prompt\<rparr>)"
  by (simp add: loop_body_header)

theorem header_line_switches_section_witness:
  "\<not> contains (str '' ## **What To Do:** today'') SUMMARY \<and>
   \<not> contains (str '' ## **What To Do:** today'') HIGHLIGHTS \<and>
   contains (str '' ## **What To Do:** today'') WHAT_TO_DO \<and>
   loop_body (initial\<lparr>l_summary := str ''A letter'', current_section := Some Sec_summary\<rparr>)
     (str '' ## **What To Do:** today'') =
   initial\<lparr>l_summary := str ''A letter'', current_section := Some Sec_what_to_do\<rparr>"
proof -
  have h: "\<not> contains (str '' ## **What To Do:** today'') SUMMARY"
    "\<not> contains (str '' ## **What To Do:** today'') HIGHLIGHTS"
    "contains (str '' ## **What To Do:** today'') WHAT_TO_DO"
    by (simp_all add: ev)
  from header_line_switches_section [of "str '' ## **What To Do:** today''"
      "initial\<lparr>l_summary := str ''A letter'', current_section := Some Sec_summary\<rparr>"] h
  show ?thesis by (simp add: initial_def)
qed

text \<open>
  The claim as first stated fails on a line with two markers: the line below contains the
  Email Prompt marker, and the current section becomes Summary, not Email Prompt.
\<close>

theorem two_markers_counterexample:
  "contains (str ''**Email Prompt:** **Summary:**'') EMAIL_PROMPT \<and>
   current_section (loop_body initial (str ''**Email Prompt:** **Summary:**'')) =
     Some Sec_summary \<and>
   current_section (loop_body initial (str ''**Email Prompt:** **Summary:**'')) \<noteq>
     Some Sec_email_prompt"
  by (simp add: ev)

section \<open>Several markers on one line\<close>

lemma contains_middle: "contains (a @ m @ b) m"
  unfolding contains_iff by blast

lemma contains_middle2: "contains (a @ m @ b @ n @ c) m" "contains (a @ m @ b @ n @ c) n"
proof -
  show "contains (a @ m @ b @ n @ c) m" unfolding contains_iff by blast
  have "a @ m @ b @ n @ c = (a @ m @ b) @ n @ c" by simp
  then show "contains (a @ m @ b @ n @ c) n" unfolding contains_iff by blast
qed

text \<open>
  Claim C9. On a line with header markers the current section becomes the section of the
  first pair of \<open>check_order\<close> whose marker the line contains, wherever the markers stand
  on the line: a line that contains the Email Prompt marker and the Summary marker, in
  either order and with anything around them, sets the current section to Summary.
\<close>

theorem header_check_order:
  "(has_marker raw \<longrightarrow>
      current_section (loop_body st raw) =
        map_option snd (find (\<lambda>(m, s). contains raw m) check_order)) \<and>
   current_section (loop_body st (a @ EMAIL_PROMPT @ b @ SUMMARY @ c)) = Some Sec_summary \<and>
   current_section (loop_body st (a @ SUMMARY @ b @ EMAIL_PROMPT @ c)) = Some Sec_summary"
proof -
  have "has_marker raw \<Longrightarrow> current_section (loop_body st raw) =
        map_option snd (find (\<lambda>(m, s). contains raw m) check_order)"
    by (auto simp: check_order_def has_marker_iff loop_body_header)
  then show ?thesis by (simp add: loop_body_header contains_middle2)
qed

theorem header_check_order_witness:
  "has_marker (str ''**Important Dates:** and **Highlights:**'') \<and>
   current_section (loop_body initial (str ''**Important Dates:** and **Highlights:**'')) =
     Some Sec_highlights"
proof -
  have h: "has_marker (str ''**Important Dates:** and **Highlights:**'')" by (simp add: ev)
  have f: "find (\<lambda>(m, s). contains (str ''**Important Dates:** and **Highlights:**'') m)
      check_order = Some (HIGHLIGHTS, Sec_highlights)"
    by (simp add: ev)
  from header_check_order [of "str ''**Important Dates:** and **Highlights:**''" initial] h
  show ?thesis by (simp add: f)
qed

section \<open>Bullet lines in the list sections\<close>

lemma bullet_item:
  assumes "startswith (strip l) (str ''- '')"
  shows "strip (drop 2 (strip l)) = item l" and "trimmed (strip (drop 2 (strip l)))"
proof -
  define s where "s = strip l"
  from assms have ne: "s \<noteq> []" using bullet_not_bold [of s] by (simp add: s_def)
  then have tr: "trimmed s" unfolding s_def by (rule strip_trimmed)
  from assms obtain rest where rest: "s = str ''- '' @ rest"
    by (auto simp: startswith_iff s_def)
  then have d: "drop 2 s = rest" by (simp add: str_def)
  have "rest \<noteq> []"
  proof
    assume "rest = []"
    with rest have "last s = 32" by (simp add: str_def)
    with tr show False by (simp add: trimmed_def is_space_def)
  qed
  moreover from this rest have "last rest = last s" by simp
  with tr have "\<not> is_space (last rest)" by (simp add: trimmed_def)
  ultimately have "strip rest = dropWhile is_space rest" and "strip rest \<noteq> []"
    by (rule strip_of_trimmed_end)+
  then show "strip (drop 2 (strip l)) = item l" and "trimmed (strip (drop 2 (strip l)))"
    using d strip_trimmed [of rest] by (simp_all add: item_def s_def [symmetric])
qed

lemma loop_keeps_section:
  "\<forall>l\<in>set ls. \<not> has_marker l \<Longrightarrow> current_section (loop st ls) = current_section st"
  by (induction ls arbitrary: st) (simp_all add: loop_Nil loop_Cons loop_body_section)

lemma loop_highlights:
  "\<forall>l\<in>set ls. \<not> has_marker l \<Longrightarrow> current_section st = Some Sec_highlights \<Longrightarrow>
     l_highlights (loop st ls) = l_highlights st @ map item (filter bullet ls)"
proof (induction ls arbitrary: st)
  case Nil
  show ?case by (simp add: loop_Nil)
next
  case (Cons l ls)
  from Cons.prems have sec: "current_section (loop_body st l) = Some Sec_highlights"
    by (simp add: loop_body_section)
  from Cons.prems have "l_highlights (loop_body st l) =
      l_highlights st @ (if bullet l then [item l] else [])"
    by (simp add: loop_body_plain bullet_def bullet_item bullet_not_bold)
  with Cons.IH [OF _ sec] Cons.prems show ?case by (simp add: loop_Cons)
qed

lemma loop_what_to_do:
  "\<forall>l\<in>set ls. \<not> has_marker l \<Longrightarrow> current_section st = Some Sec_what_to_do \<Longrightarrow>
     l_what_to_do (loop st ls) = l_what_to_do st @ map item (filter bullet ls)"
proof (induction ls arbitrary: st)
  case Nil
  show ?case by (simp add: loop_Nil)
next
  case (Cons l ls)
  from Cons.prems have sec: "current_section (loop_body st l) = Some Sec_what_to_do"
    by (simp add: loop_body_section)
  from Cons.prems have "l_what_to_do (loop_body st l) =
      l_what_to_do st @ (if bullet l then [item l] else [])"
    by (simp add: loop_body_plain bullet_def bullet_item bullet_not_bold)
  with Cons.IH [OF _ sec] Cons.prems show ?case by (simp add: loop_Cons)
qed

lemma loop_important_dates:
  "\<forall>l\<in>set ls. \<not> has_marker l \<Longrightarrow> current_section st = Some Sec_important_dates \<Longrightarrow>
     l_important_dates (loop st ls) = l_important_dates st @ map item (filter bullet ls)"
proof (induction ls arbitrary: st)
  case Nil
  show ?case by (simp add: loop_Nil)
next
  case (Cons l ls)
  from Cons.prems have sec: "current_section (loop_body st l) = Some Sec_important_dates"
    by (simp add: loop_body_section)
  from Cons.prems have "l_important_dates (loop_body st l) =
      l_important_dates st @ (if bullet l then [item l] else [])"
    by (simp add: loop_body_plain bullet_def bullet_item bullet_not_bold)
  with Cons.IH [OF _ sec] Cons.prems show ?case by (simp add: loop_Cons)
qed

text \<open>
  Claim C5, as amended. Over lines without header marker, read while the current section is
  Highlights, What To Do or Important Dates, the list of that section grows by the items of
  the bullet lines, in the order of the lines: each item is the stripped line without its
  two-character marker \<open>"- "\<close> and without the whitespace that follows it, unchanged
  otherwise. The text of the example gives highlights A, B and actions C.
\<close>

theorem bullets_appended_in_order:
  "((\<forall>l\<in>set ls. \<not> has_marker l) \<and> current_section st = Some Sec_highlights \<longrightarrow>
      l_highlights (loop st ls) = l_highlights st @ map item (filter bullet ls)) \<and>
   ((\<forall>l\<in>set ls. \<not> has_marker l) \<and> current_section st = Some Sec_what_to_do \<longrightarrow>
      l_what_to_do (loop st ls) = l_what_to_do st @ map item (filter bullet ls)) \<and>
   ((\<forall>l\<in>set ls. \<not> has_marker l) \<and> current_section st = Some Sec_important_dates \<longrightarrow>
      l_important_dates (loop st ls) = l_important_dates st @ map item (filter bullet ls)) \<and>
   highlights (parse_ai_response (str ''**Highlights:**'' @ [NL] @ str ''- A'' @ [NL] @
     str ''- B'' @ [NL] @ str ''**What To Do:**'' @ [NL] @ str ''- C'')) = [str ''A'', str ''B''] \<and>
   what_to_do (parse_ai_response (str ''**Highlights:**'' @ [NL] @ str ''- A'' @ [NL] @
     str ''- B'' @ [NL] @ str ''**What To Do:**'' @ [NL] @ str ''- C'')) = [str ''C'']"
proof -
  have "highlights (parse_ai_response (str ''**Highlights:**'' @ [NL] @ str ''- A'' @ [NL] @
     str ''- B'' @ [NL] @ str ''**What To Do:**'' @ [NL] @ str ''- C'')) = [str ''A'', str ''B'']"
    by (simp add: ev)
  moreover have "what_to_do (parse_ai_response (str ''**Highlights:**'' @ [NL] @ str ''- A'' @
     [NL] @ str ''- B'' @ [NL] @ str ''**What To Do:**'' @ [NL] @ str ''- C'')) = [str ''C'']"
    by (simp add: ev)
  ultimately show ?thesis
    by (simp add: loop_highlights loop_what_to_do loop_important_dates)
qed

theorem bullets_appended_in_order_witness:
  "\<not> has_marker (str ''-   first'') \<and> \<not> has_marker (str ''note'') \<and>
   \<not> has_marker (str '' - second '') \<and>
   l_important_dates (loop (initial\<lparr>l_important_dates := [str ''zero''],
       current_section := Some Sec_important_dates\<rparr>)
     [str ''-   first'', str ''note'', str '' - second '']) =
   [str ''zero'', str ''first'', str ''second'']"
proof -
  have h: "\<not> has_marker (str ''-   first'')" "\<not> has_marker (str ''note'')"
    "\<not> has_marker (str '' - second '')"
    by (simp_all add: ev)
  have b: "bullet (str ''-   first'')" "\<not> bullet (str ''note'')" "bullet (str '' - second '')"
    "item (str ''-   first'') = str ''first''" "item (str '' - second '') = str ''second''"
    by (simp_all add: ev)
  from bullets_appended_in_order [of "[str ''-   first'', str ''note'', str '' - second '']"
      "initial\<lparr>l_important_dates := [str ''zero''],
         current_section := Some Sec_important_dates\<rparr>"] h
  show ?thesis by (simp add: b initial_def)
qed

text \<open>
  The claim as first stated fails on a bullet line that contains a header marker: below
  the Highlights header the line \<open>"- **Summary:** x"\<close> is not appended to the highlights,
  it is read as a header.
\<close>

theorem bullet_with_marker_counterexample:
  "startswith (strip (str ''- **Summary:** x'')) (str ''- '') \<and>
   current_section (loop initial (split (str ''**Highlights:**'') NL)) = Some Sec_highlights \<and>
   highlights (parse_ai_response (str ''**Highlights:**'' @ [NL] @ str ''- **Summary:** x'')) = []"
  by (simp add: ev)

section \<open>The last line of a summary or email prompt\<close>





section \<open>Sections whose marker is missing\<close>

lemma marker_of_has: "contains raw (marker_of s) \<Longrightarrow> has_marker raw"
  by (cases s) (simp_all add: has_marker_iff)

lemma loop_body_switch:
  assumes "has_marker raw"
  shows "\<exists>s. contains raw (marker_of s) \<and>
    (\<forall>st. loop_body st raw = st\<lparr>current_section := Some s\<rparr>)"
proof -
  consider "contains raw SUMMARY"
    | "\<not> contains raw SUMMARY" "contains raw HIGHLIGHTS"
    | "\<not> contains raw SUMMARY" "\<not> contains raw HIGHLIGHTS" "contains raw WHAT_TO_DO"
    | "\<not> contains raw SUMMARY" "\<not> contains raw HIGHLIGHTS" "\<not> contains raw WHAT_TO_DO"
      "contains raw IMPORTANT_DATES"
    | "\<not> contains raw SUMMARY" "\<not> contains raw HIGHLIGHTS" "\<not> contains raw WHAT_TO_DO"
      "\<not> contains raw IMPORTANT_DATES" "contains raw EMAIL_PROMPT"
    using assms by (auto simp: has_marker_iff)
  then show ?thesis
  proof cases
    case 1
    then have "contains raw (marker_of Sec_summary) \<and>
        (\<forall>st. loop_body st raw = st\<lparr>current_section := Some Sec_summary\<rparr>)"
      by (simp add: loop_body_header)
    then show ?thesis ..
  next
    case 2
    then have "contains raw (marker_of Sec_highlights) \<and>
        (\<forall>st. loop_body st raw = st\<lparr>current_section := Some Sec_highlights\<rparr>)"
      by (simp add: loop_body_header)
    then show ?thesis ..
  next
    case 3
    then have "contains raw (marker_of Sec_what_to_do) \<and>
        (\<forall>st. loop_body st raw = st\<lparr>current_section := Some Sec_what_to_do\<rparr>)"
      by (simp add: loop_body_header)
    then show ?thesis ..
  next
    case 4
    then have "contains raw (marker_of Sec_important_dates) \<and>
        (\<forall>st. loop_body st raw = st\<lparr>current_section := Some Sec_important_dates\<rparr>)"
      by (simp add: loop_body_header)
    then show ?thesis ..
  next
    case 5
    then have "contains raw (marker_of Sec_email_prompt) \<and>
        (\<forall>st. loop_body st raw = st\<lparr>current_section := Some Sec_email_prompt\<rparr>)"
      by (simp add: loop_body_header)
    then show ?thesis ..
  qed
qed

lemma stored_section [simp]: "stored s (st\<lparr>current_section := c\<rparr>) = stored s st"
  by (cases s) simp_all

text \<open>A section whose marker a line does not contain is neither entered nor written.\<close>

lemma loop_body_untouched:
  assumes "\<not> contains raw (marker_of s)" and "current_section st \<noteq> Some s"
  shows "stored s (loop_body st raw) = stored s st \<and> current_section (loop_body st raw) \<noteq> Some s"
proof (cases "has_marker raw")
  case True
  then obtain s' where "contains raw (marker_of s')"
    and "loop_body st raw = st\<lparr>current_section := Some s'\<rparr>"
    using loop_body_switch [of raw] by blast
  with assms show ?thesis by auto
next
  case False
  with assms(2) show ?thesis by (cases s) (simp_all add: loop_body_plain)
qed

lemma loop_untouched:
  "\<forall>l\<in>set ls. \<not> contains l (marker_of s) \<Longrightarrow> current_section st \<noteq> Some s \<Longrightarrow>
     stored s (loop st ls) = stored s st"
proof (induction ls arbitrary: st)
  case Nil
  show ?case by (simp add: loop_Nil)
next
  case (Cons l ls)
  then have "stored s (loop_body st l) = stored s st \<and> current_section (loop_body st l) \<noteq> Some s"
    by (simp add: loop_body_untouched)
  with Cons.IH [of "loop_body st l"] Cons.prems show ?case by (simp add: loop_Cons)
qed

lemma field_default:
  "\<forall>l\<in>set ls. \<not> contains l SUMMARY \<Longrightarrow> l_summary (loop initial ls) = []"
  "\<forall>l\<in>set ls. \<not> contains l HIGHLIGHTS \<Longrightarrow> l_highlights (loop initial ls) = []"
  "\<forall>l\<in>set ls. \<not> contains l WHAT_TO_DO \<Longrightarrow> l_what_to_do (loop initial ls) = []"
  "\<forall>l\<in>set ls. \<not> contains l IMPORTANT_DATES \<Longrightarrow> l_important_dates (loop initial ls) = []"
  "\<forall>l\<in>set ls. \<not> contains l EMAIL_PROMPT \<Longrightarrow> l_email_prompt (loop initial ls) = None"
  using loop_untouched [of ls Sec_summary initial] loop_untouched [of ls Sec_highlights initial]
    loop_untouched [of ls Sec_what_to_do initial]
    loop_untouched [of ls Sec_important_dates initial]
    loop_untouched [of ls Sec_email_prompt initial]
  by (simp_all add: initial_def split: if_splits option.splits)

lemma no_marker_lines:
  "\<not> contains response_text m \<Longrightarrow> \<forall>l\<in>set (split response_text NL). \<not> contains l m"
  using contains_line [of _ response_text m] by blast

text \<open>
  Claim C6. A field whose header marker occurs nowhere in the text has its default in the
  result: the empty string, the empty list, or \<open>None\<close>. A text with none of the five
  markers gives the result with every field at its default.
\<close>

theorem missing_section_keeps_default:
  "(\<not> contains response_text SUMMARY \<longrightarrow> summary (parse_ai_response response_text) = []) \<and>
   (\<not> contains response_text HIGHLIGHTS \<longrightarrow> highlights (parse_ai_response response_text) = []) \<and>
   (\<not> contains response_text WHAT_TO_DO \<longrightarrow> what_to_do (parse_ai_response response_text) = []) \<and>
   (\<not> contains response_text IMPORTANT_DATES \<longrightarrow>
      important_dates (parse_ai_response response_text) = []) \<and>
   (\<not> contains response_text EMAIL_PROMPT \<longrightarrow>
      email_prompt (parse_ai_response response_text) = None) \<and>
   (\<not> has_marker response_text \<longrightarrow> parse_ai_response response_text = defaults)"
  by (auto simp: parse_ai_response_def response_def defaults_def has_marker_iff field_default
      no_marker_lines)

theorem missing_section_keeps_default_witness:
  "\<not> has_marker (str ''Hello'' @ [NL] @ str ''- item'' @ [NL] @ str ''Summary: none'') \<and>
   parse_ai_response (str ''Hello'' @ [NL] @ str ''- item'' @ [NL] @ str ''Summary: none'') =
     defaults \<and>
   \<not> contains (str ''**Summary:**'' @ [NL] @ str ''Hi'') EMAIL_PROMPT \<and>
   email_prompt (parse_ai_response (str ''**Summary:**'' @ [NL] @ str ''Hi'')) = None \<and>
   summary (parse_ai_response (str ''**Summary:**'' @ [NL] @ str ''Hi'')) = str ''Hi''"
proof -
  have h: "\<not> has_marker (str ''Hello'' @ [NL] @ str ''- item'' @ [NL] @ str ''Summary: none'')"
    by (simp add: ev)
  have e: "\<not> contains (str ''**Summary:**'' @ [NL] @ str ''Hi'') EMAIL_PROMPT"
    by (simp add: ev)
  have s: "summary (parse_ai_response (str ''**Summary:**'' @ [NL] @ str ''Hi'')) = str ''Hi''"
    by (simp add: ev)
  from missing_section_keeps_default
      [of "str ''Hello'' @ [NL] @ str ''- item'' @ [NL] @ str ''Summary: none''"]
    missing_section_keeps_default [of "str ''**Summary:**'' @ [NL] @ str ''Hi''"] h e s
  show ?thesis by simp
qed

text \<open>
  Claim C7. When no line of the text contains the marker \<open>**Email Prompt:**\<close>, the email
  prompt of the result is \<open>None\<close>, which is not the empty string.
\<close>

theorem no_email_marker_no_email_prompt:
  assumes "\<forall>l\<in>set (split response_text NL). \<not> contains l EMAIL_PROMPT"
  shows "email_prompt (parse_ai_response response_text) = None \<and>
    email_prompt (parse_ai_response response_text) \<noteq> Some []"
  using assms by (simp add: parse_ai_response_def response_def field_default)

theorem no_email_marker_no_email_prompt_witness:
  "split (str ''**Summary:**'' @ [NL] @ str ''Reply to a@b.c'') NL =
     [str ''**Summary:**'', str ''Reply to a@b.c''] \<and>
   \<not> contains (str ''**Summary:**'') EMAIL_PROMPT \<and>
   \<not> contains (str ''Reply to a@b.c'') EMAIL_PROMPT \<and>
   email_prompt (parse_ai_response (str ''**Summary:**'' @ [NL] @ str ''Reply to a@b.c'')) = None"
proof -
  have l: "split (str ''**Summary:**'' @ [NL] @ str ''Reply to a@b.c'') NL =
     [str ''**Summary:**'', str ''Reply to a@b.c'']"
    by (simp add: ev)
  have h: "\<not> contains (str ''**Summary:**'') EMAIL_PROMPT"
    "\<not> contains (str ''Reply to a@b.c'') EMAIL_PROMPT"
    by (simp_all add: ev)
  from no_email_marker_no_email_prompt
      [of "str ''**Summary:**'' @ [NL] @ str ''Reply to a@b.c''"] l h
  show ?thesis by simp
qed

section \<open>Stored strings are trimmed\<close>

lemma loop_body_stored:
  assumes "x \<in> set (stored s (loop_body st raw))"
  shows "x \<in> set (stored s st) \<or> trimmed x"
proof (cases "has_marker raw")
  case True
  then obtain s' where "loop_body st raw = st\<lparr>current_section := Some s'\<rparr>"
    using loop_body_switch [of raw] by blast
  with assms show ?thesis by simp
next
  case False
  with assms show ?thesis
    by (cases s)
      (auto simp: loop_body_plain bullet_item(2) strip_trimmed split: if_splits option.splits)
qed

lemma loop_stored:
  "\<forall>x\<in>set (stored s st). trimmed x \<Longrightarrow> \<forall>x\<in>set (stored s (loop st ls)). trimmed x"
proof (induction ls arbitrary: st)
  case Nil
  then show ?case by (simp add: loop_Nil)
next
  case (Cons l ls)
  from Cons.prems have "\<forall>x\<in>set (stored s (loop_body st l)). trimmed x"
    using loop_body_stored [of _ s st l] by blast
  then show ?case unfolding loop_Cons by (rule Cons.IH)
qed

lemma parsed_stored: "\<forall>x\<in>set (stored s (loop initial ls)). trimmed x"
proof (rule loop_stored)
  show "\<forall>x\<in>set (stored s initial). trimmed x"
    by (cases s) (simp_all add: initial_def)
qed

text \<open>
  Claim C10. Every element of the highlights, the actions and the important dates is a
  non-empty string without whitespace at either end; so is the summary unless it is the
  empty default, and so is the email prompt when there is one, which is never the empty
  string.
\<close>

theorem stored_strings_trimmed:
  "(\<forall>x\<in>set (highlights (parse_ai_response response_text)). trimmed x) \<and>
   (\<forall>x\<in>set (what_to_do (parse_ai_response response_text)). trimmed x) \<and>
   (\<forall>x\<in>set (important_dates (parse_ai_response response_text)). trimmed x) \<and>
   (summary (parse_ai_response response_text) \<noteq> [] \<longrightarrow>
      trimmed (summary (parse_ai_response response_text))) \<and>
   (\<forall>e. email_prompt (parse_ai_response response_text) = Some e \<longrightarrow> trimmed e) \<and>
   email_prompt (parse_ai_response response_text) \<noteq> Some []"
proof -
  define st where "st = loop initial (split response_text NL)"
  have r: "parse_ai_response response_text = response st"
    by (simp add: parse_ai_response_def st_def)
  have all: "\<forall>x\<in>set (stored s st). trimmed x" for s
    unfolding st_def by (rule parsed_stored)
  have h: "\<forall>x\<in>set (l_highlights st). trimmed x"
    using all [of Sec_highlights] by simp
  have w: "\<forall>x\<in>set (l_what_to_do st). trimmed x"
    using all [of Sec_what_to_do] by simp
  have d: "\<forall>x\<in>set (l_important_dates st). trimmed x"
    using all [of Sec_important_dates] by simp
  have s: "l_summary st \<noteq> [] \<longrightarrow> trimmed (l_summary st)"
    using all [of Sec_summary] by simp
  have e: "\<forall>e. l_email_prompt st = Some e \<longrightarrow> trimmed e"
    using all [of Sec_email_prompt] by simp
  then have n: "l_email_prompt st \<noteq> Some []"
    by (auto simp: trimmed_def)
  from h w d s e n show ?thesis
    unfolding r response_def by simp
qed

theorem stored_strings_trimmed_witness:
  "parse_ai_response (str ''**Summary:**'' @ [NL] @ str ''  Pay now '' @ [NL] @
     str ''**Highlights:**'' @ [NL] @ str ''-   A  '' @ [NL] @ str ''**Email Prompt:**'' @ [NL] @
     str '' ok?'') =
   \<lparr>summary = str ''Pay now'', highlights = [str ''A''], what_to_do = [],
     important_dates = [], email_prompt = Some (str ''ok?'')\<rparr> \<and>
   trimmed (str ''Pay now'') \<and> trimmed (str ''A'') \<and> trimmed (str ''ok?'')"
proof -
  have p: "parse_ai_response (str ''**Summary:**'' @ [NL] @ str ''  Pay now '' @ [NL] @
     str ''**Highlights:**'' @ [NL] @ str ''-   A  '' @ [NL] @ str ''**Email Prompt:**'' @ [NL] @
     str '' ok?'') =
   \<lparr>summary = str ''Pay now'', highlights = [str ''A''], what_to_do = [],
     important_dates = [], email_prompt = Some (str ''ok?'')\<rparr>"
    by (simp add: ev)
  have n: "str ''Pay now'' \<noteq> []" by (simp add: str_def)
  from stored_strings_trimmed [of "str ''**Summary:**'' @ [NL] @ str ''  Pay now '' @ [NL] @
     str ''**Highlights:**'' @ [NL] @ str ''-   A  '' @ [NL] @ str ''**Email Prompt:**'' @ [NL] @
     str '' ok?''"] n
  show ?thesis unfolding p by simp
qed

section \<open>Totality and determinism\<close>

lemma section_str_eq [simp]:
  "section_str s = str ''summary'' \<longleftrightarrow> s = Sec_summary"
  "section_str s = str ''highlights'' \<longleftrightarrow> s = Sec_highlights"
  "section_str s = str ''what_to_do'' \<longleftrightarrow> s = Sec_what_to_do"
  "section_str s = str ''important_dates'' \<longleftrightarrow> s = Sec_important_dates"
  "section_str s = str ''email_prompt'' \<longleftrightarrow> s = Sec_email_prompt"
  by (cases s; simp add: str_def)+

lemma and_then_Inr [simp]: "and_then (Inr x) f = f x"
  by (simp add: and_then_def)

lemma loop_body_py_refines:
  "loop_body_py (py_of_locals (length h) st, h @ lists_of_locals st) raw =
     Inr (py_of_locals (length h) (loop_body st raw), h @ lists_of_locals (loop_body st raw))"
proof (cases "current_section st")
  case None
  then show ?thesis
    by (simp add: loop_body_py_def loop_body_def py_of_locals_def lists_of_locals_def Let_def
        str_def)
next
  case (Some s)
  then show ?thesis
    by (cases s)
      (simp_all add: loop_body_py_def loop_body_def py_of_locals_def lists_of_locals_def Let_def
        nth_append list_update_append str_def)
qed

lemma loop_py_refines:
  "loop_py (py_of_locals (length h) st, h @ lists_of_locals st) ls =
     Inr (py_of_locals (length h) (loop st ls), h @ lists_of_locals (loop st ls))"
  by (induction ls arbitrary: st) (simp_all add: loop_Nil loop_Cons loop_body_py_refines)

lemma validate_items_strs: "validate_items (map PyStr xs) = Inr xs"
  by (induction xs) simp_all

lemma new_AnalysisResponse_refines:
  "new_AnalysisResponse (h @ lists_of_locals st) (py_of_locals (length h) st) = Inr (response st)"
  by (simp add: new_AnalysisResponse_def py_of_locals_def lists_of_locals_def response_def
      nth_append validate_items_strs split: option.split)

lemma initial_py:
  "(\<lparr>v_summary = PyStr [], v_highlights = PyRef (length h),
      v_what_to_do = PyRef (length h + 1), v_important_dates = PyRef (length h + 2),
      v_email_prompt = PyNone, v_current_section = PyNone\<rparr>, h @ [[], [], []]) =
   (py_of_locals (length h) initial, h @ lists_of_locals initial)"
  by (simp add: py_of_locals_def lists_of_locals_def initial_def)

text \<open>
  On a string the function on Python values raises nothing and returns what the typed model
  returns; the store it leaves is the store it started in, followed by the three lists.
\<close>

lemma parse_ai_response_py_refines:
  "parse_ai_response_py h (PyStr response_text) =
     Inr (parse_ai_response response_text,
       h @ lists_of_locals (loop initial (split response_text NL)))"
proof -
  have "parse_ai_response_py h (PyStr response_text) =
      and_then (loop_py (py_of_locals (length h) initial, h @ lists_of_locals initial)
          (split response_text NL))
        (\<lambda>s. and_then (new_AnalysisResponse (snd s) (fst s)) (\<lambda>r. Inr (r, snd s)))"
    unfolding initial_py [symmetric]
    by (simp add: parse_ai_response_py_def py_new_list_def)
  then show ?thesis
    by (simp add: loop_py_refines new_AnalysisResponse_refines parse_ai_response_def)
qed

text \<open>A value that is not a string makes \<open>split\<close> raise.\<close>

lemma parse_ai_response_py_not_str:
  "parse_ai_response_py h PyNone = Inl AttributeError"
  "parse_ai_response_py h (PyRef a) = Inl AttributeError"
  by (simp_all add: parse_ai_response_py_def and_then_def)

text \<open>
  The validation is not idle: a summary of \<open>None\<close>, the value the email prompt starts
  with, would make the constructor raise, and so would appending to a variable that holds
  no list.
\<close>

lemma new_AnalysisResponse_rejects:
  "new_AnalysisResponse h (v\<lparr>v_summary := PyNone\<rparr>) = Inl ValidationError"
  by (simp add: new_AnalysisResponse_def and_then_def)

lemma py_append_rejects:
  "py_append h PyNone x = Inl AttributeError"
  "py_append h (PyStr s) x = Inl AttributeError"
  by simp_all

text \<open>
  Claim C2. For every text, in every store, \<open>parse_ai_response\<close> raises no exception: every
  method is called on a value that has it and the validation of the result succeeds, so
  the call returns a record of a summary, three lists of strings and an optional email
  prompt, the one the typed model computes. The empty text, a text of blank lines and a text
  without any structure return the defaults.
\<close>

theorem parse_ai_response_total:
  "(\<exists>h'. parse_ai_response_py h (PyStr response_text) =
      Inr (parse_ai_response response_text, h')) \<and>
   parse_ai_response_py h (PyStr []) = Inr (defaults, h @ [[], [], []]) \<and>
   parse_ai_response_py h (PyStr (str ''   '' @ [NL] @ [9, 13] @ [NL])) =
     Inr (defaults, h @ [[], [], []]) \<and>
   parse_ai_response_py h (PyStr (str ''no structure at all'')) = Inr (defaults, h @ [[], [], []])"
proof -
  have e: "loop initial (split [] NL) = initial"
    "loop initial (split (str ''   '' @ [NL] @ [9, 13] @ [NL]) NL) = initial"
    "loop initial (split (str ''no structure at all'') NL) = initial"
    by (simp_all add: ev)
  have d: "response initial = defaults" "lists_of_locals initial = [[], [], []]"
    by (simp_all add: response_def initial_def defaults_def lists_of_locals_def)
  show ?thesis
    unfolding parse_ai_response_py_refines parse_ai_response_def e d by simp
qed

text \<open>
  Claim C8. Two calls of \<open>parse_ai_response\<close> on the same text return equal records, field
  by field, whatever the stores they start in, in particular when the second call starts
  in the store the first one left; and a call leaves every list object that existed before
  it unchanged.
\<close>

theorem parse_ai_response_deterministic:
  assumes "parse_ai_response_py h1 (PyStr response_text) = Inr (r1, h1')"
    and "parse_ai_response_py h2 (PyStr response_text) = Inr (r2, h2')"
  shows "summary r1 = summary r2 \<and> highlights r1 = highlights r2 \<and>
    what_to_do r1 = what_to_do r2 \<and> important_dates r1 = important_dates r2 \<and>
    email_prompt r1 = email_prompt r2 \<and> r1 = r2 \<and>
    take (length h1) h1' = h1 \<and> take (length h2) h2' = h2"
  using assms by (auto simp: parse_ai_response_py_refines)

theorem parse_ai_response_deterministic_witness:
  "parse_ai_response_py [] (PyStr (str ''**Highlights:**'' @ [NL] @ str ''- A'')) =
     Inr (\<lparr>summary = [], highlights = [str ''A''], what_to_do = [], important_dates = [],
       email_prompt = None\<rparr>, [[PyStr (str ''A'')], [], []]) \<and>
   parse_ai_response_py [[PyStr (str ''A'')], [], []]
       (PyStr (str ''**Highlights:**'' @ [NL] @ str ''- A'')) =
     Inr (\<lparr>summary = [], highlights = [str ''A''], what_to_do = [], important_dates = [],
       email_prompt = None\<rparr>,
       [[PyStr (str ''A'')], [], [], [PyStr (str ''A'')], [], []]) \<and>
   take (length [[PyStr (str ''A'')], [], []])
     [[PyStr (str ''A'')], [], [], [PyStr (str ''A'')], [], []] = [[PyStr (str ''A'')], [], []]"
proof -
  have l: "loop initial (split (str ''**Highlights:**'' @ [NL] @ str ''- A'') NL) =
      initial\<lparr>l_highlights := [str ''A''], current_section := Some Sec_highlights\<rparr>"
    by (simp add: ev)
  have a: "parse_ai_response_py [] (PyStr (str ''**Highlights:**'' @ [NL] @ str ''- A'')) =
     Inr (\<lparr>summary = [], highlights = [str ''A''], what_to_do = [], important_dates = [],
       email_prompt = None\<rparr>, [[PyStr (str ''A'')], [], []])"
    unfolding parse_ai_response_py_refines parse_ai_response_def l
    by (simp add: response_def lists_of_locals_def initial_def)
  have b: "parse_ai_response_py [[PyStr (str ''A'')], [], []]
       (PyStr (str ''**Highlights:**'' @ [NL] @ str ''- A'')) =
     Inr (\<lparr>summary = [], highlights = [str ''A''], what_to_do = [], important_dates = [],
       email_prompt = None\<rparr>,
       [[PyStr (str ''A'')], [], [], [PyStr (str ''A'')], [], []])"
    unfolding parse_ai_response_py_refines parse_ai_response_def l
    by (simp add: response_def lists_of_locals_def initial_def)
  from parse_ai_response_deterministic [OF a b] a b show ?thesis by simp
qed

end
